theory Spec2Isabelle
  imports Complex_Main "HOL-Library.Product_Lexorder"
begin

section \<open>Data model\<close>

text \<open>
  The program is \<^verbatim>\<open>plot_opinions.py\<close>: it reads a YAML document of statements and
  votes, turns the votes into a numeric matrix (\<^verbatim>\<open>load_from_yaml\<close>), hands the matrix to
  an external analyzer, and draws the analyzer's 2-D points with one buffered convex hull
  per cluster (\<^verbatim>\<open>plot_opinion_clusters\<close>).

  Python exceptions are values of \<open>error\<close>; a function that can raise returns
  \<open>error + 'a\<close>, with \<open>Inl\<close> for the exception. NumPy's \<^verbatim>\<open>float64\<close> is idealised as
  \<open>real\<close>: rounding, overflow and underflow are not modelled. The one float effect the
  model keeps is the quiet \<^verbatim>\<open>nan\<close> that NumPy produces for \<^verbatim>\<open>0/0\<close> instead of raising.
\<close>

datatype error =
    ValueError string
  | IndexError string
  | QhullError string

text \<open>
  The parsed YAML document, restricted to the two fields the program reads:
  \<^verbatim>\<open>data["statements"]\<close> and \<^verbatim>\<open>data["votes"]\<close>. The latter is a mapping whose
  insertion order the program relies on, so it is an association list
  (participant, vote tokens).
\<close>

record document =
  statements :: "string list"
  votes :: "(string \<times> string list) list"

section \<open>Vote matrix builder: \<^verbatim>\<open>load_from_yaml\<close>\<close>

text \<open>\<^verbatim>\<open>vote_map = {"agree": 1, "disagree": -1}\<close>\<close>

definition vote_map :: "string \<rightharpoonup> int" where
  "vote_map = [''agree'' \<mapsto> 1, ''disagree'' \<mapsto> - 1]"

text \<open>Python's \<^verbatim>\<open>dict.get(key, default)\<close>.\<close>

definition dict_get :: "('k \<rightharpoonup> 'v) \<Rightarrow> 'k \<Rightarrow> 'v \<Rightarrow> 'v" where
  "dict_get m k d = (case m k of None \<Rightarrow> d | Some v \<Rightarrow> v)"

text \<open>
  \<^verbatim>\<open>np.array(votes)\<close> on a list of integer rows. NumPy (1.24 and later) raises
  \<^verbatim>\<open>ValueError\<close> ("inhomogeneous shape") when the rows differ in length, and builds
  the matrix otherwise. Nothing here looks at the statements.
\<close>

definition np_array :: "int list list \<Rightarrow> error + int list list" where
  "np_array rows =
     (if list_all (\<lambda>r. length r = length (hd rows)) rows then Inr rows
      else Inl (ValueError ''inhomogeneous shape''))"

text \<open>
  \<^verbatim>\<open>
  votes = [[vote_map.get(v, 0) for v in user_votes]
           for user_votes in data["votes"].values()]
  return data["statements"], np.array(votes), list(data["votes"].keys())
  \<close>
\<close>

definition vote_rows :: "document \<Rightarrow> int list list" where
  "vote_rows data =
     map (\<lambda>user_votes. map (\<lambda>v. dict_get vote_map v 0) user_votes) (map snd (votes data))"

definition load_from_yaml :: "document \<Rightarrow> error + (string list \<times> int list list \<times> string list)" where
  "load_from_yaml data =
     (case np_array (vote_rows data) of
        Inl e \<Rightarrow> Inl e
      | Inr m \<Rightarrow> Inr (statements data, m, map fst (votes data)))"

section \<open>Geometry: convex hull and buffering\<close>

type_synonym point = "real \<times> real"

text \<open>
  \<open>cross p q r\<close> is the z-component of \<open>(q - p) \<times> (r - p)\<close>: positive when \<open>r\<close> lies
  to the left of the ray from \<open>p\<close> through \<open>q\<close>. \<open>dot p q r\<close> is \<open>(q - p) \<bullet> (r - p)\<close>.
\<close>

definition cross :: "point \<Rightarrow> point \<Rightarrow> point \<Rightarrow> real" where
  "cross p q r = (fst q - fst p) * (snd r - snd p) - (snd q - snd p) * (fst r - fst p)"

definition dot :: "point \<Rightarrow> point \<Rightarrow> point \<Rightarrow> real" where
  "dot p q r = (fst q - fst p) * (fst r - fst p) + (snd q - snd p) * (snd r - snd p)"

text \<open>
  \<^verbatim>\<open>scipy.spatial.ConvexHull\<close> is a library (Qhull) outside the repository. It is
  modelled by its documented contract for 2-D input, in exact arithmetic:
  \<^item> it raises \<^verbatim>\<open>QhullError\<close> when the input has fewer than 3 points or when all
    points are coincident or collinear (\<open>flat\<close>: no initial simplex exists);
  \<^item> otherwise \<^verbatim>\<open>hull.vertices\<close> holds the indices of the extreme points of the
    input, each once, in counterclockwise order.
  A point \<open>p\<close> is an extreme point when some other point \<open>q\<close> sees every further point
  strictly to the left of the ray from \<open>p\<close> through \<open>q\<close>, or on that ray. The
  counterclockwise order starts at the lexicographically least vertex \<open>L\<close>, runs along the
  vertices below the line to the greatest vertex \<open>R\<close>, and returns above it; which vertex
  Qhull lists first is not documented, and nothing below depends on it.
\<close>

definition flat :: "point list \<Rightarrow> bool" where
  "flat pts = (\<forall>p\<in>set pts. \<forall>q\<in>set pts. \<forall>r\<in>set pts. cross p q r = 0)"

definition extreme :: "point list \<Rightarrow> point \<Rightarrow> bool" where
  "extreme pts p =
     (\<exists>q\<in>set pts. q \<noteq> p \<and>
        (\<forall>r\<in>set pts. r \<noteq> p \<longrightarrow> 0 < cross p q r \<or> (cross p q r = 0 \<and> 0 < dot p q r)))"

definition ccw_order :: "point list \<Rightarrow> point list" where
  "ccw_order vs =
     (case sort vs of
        [] \<Rightarrow> []
      | L # rest \<Rightarrow>
          (let R = last (L # rest)
           in filter (\<lambda>p. p = L \<or> cross L R p < 0) (L # rest)
              @ rev (filter (\<lambda>p. p \<noteq> L \<and> (p = R \<or> 0 < cross L R p)) (L # rest))))"

fun index_of :: "'a list \<Rightarrow> 'a \<Rightarrow> nat" where
  "index_of [] x = 0"
| "index_of (y # ys) x = (if x = y then 0 else Suc (index_of ys x))"

definition ConvexHull :: "point list \<Rightarrow> error + nat list" where
  "ConvexHull pts =
     (if length pts < 3 \<or> flat pts then Inl (QhullError ''initial simplex is flat'')
      else Inr (map (index_of pts) (ccw_order (filter (extreme pts) (remdups pts)))))"

text \<open>
  A row of a float array of shape (n, 2). Line 38 divides each centroid-to-vertex vector
  by its length; NumPy does not raise on a zero length but yields \<^verbatim>\<open>nan\<close> (0/0) in both
  columns, which then spreads through line 39.
\<close>

datatype row = Pt real real | NaN

text \<open>\<^verbatim>\<open>np.mean(hull_points, axis=0)\<close>\<close>

definition np_mean :: "point list \<Rightarrow> point" where
  "np_mean ps =
     (sum_list (map fst ps) / real (length ps), sum_list (map snd ps) / real (length ps))"

text \<open>
  Lines 35 to 40, array by array:
  \<^verbatim>\<open>
  centroid = np.mean(hull_points, axis=0)
  vectors = hull_points - centroid
  lengths = np.sqrt(np.sum(vectors**2, axis=1))
  normalized_vectors = vectors / lengths[:, np.newaxis]
  buffered_points = hull_points + normalized_vectors * 0.5
  buffered_points = np.vstack((buffered_points, buffered_points[0]))
  \<close>
  \<^verbatim>\<open>buffered_points[0]\<close> raises \<^verbatim>\<open>IndexError\<close> on an array without rows.
\<close>

definition row_div :: "point \<Rightarrow> real \<Rightarrow> row" where
  "row_div v l = (if l = 0 then NaN else Pt (fst v / l) (snd v / l))"

definition row_offset :: "point \<Rightarrow> row \<Rightarrow> row" where
  "row_offset p n = (case n of NaN \<Rightarrow> NaN | Pt nx ny \<Rightarrow> Pt (fst p + nx * 0.5) (snd p + ny * 0.5))"

definition buffer_hull :: "point list \<Rightarrow> error + row list" where
  "buffer_hull hull_points =
     (let centroid = np_mean hull_points;
          vectors = map (\<lambda>p. (fst p - fst centroid, snd p - snd centroid)) hull_points;
          lengths = map (\<lambda>v. sqrt ((fst v)\<^sup>2 + (snd v)\<^sup>2)) vectors;
          normalized_vectors = map2 row_div vectors lengths;
          buffered_points = map2 row_offset hull_points normalized_vectors
      in case buffered_points of
           [] \<Rightarrow> Inl (IndexError ''index 0 is out of bounds for axis 0 with size 0'')
         | b # _ \<Rightarrow> Inr (buffered_points @ [b]))"

section \<open>Rendering: \<^verbatim>\<open>plot_opinion_clusters\<close>\<close>

text \<open>\<^verbatim>\<open>np.unique\<close>: the distinct labels, sorted.\<close>

definition np_unique :: "int list \<Rightarrow> int list" where
  "np_unique xs = sort (remdups xs)"

text \<open>
  \<^verbatim>\<open>plt.cm.viridis(x)\<close> for a float \<open>x\<close>. Matplotlib's colormap has a table of
  \<open>N = 256\<close> colours; it looks up entry \<open>trunc (x * N)\<close>, with \<open>x = 1\<close> taken as the last
  entry, and gives every \<open>x < 0\<close> the colour of entry 0 and every \<open>x > 1\<close> the colour of
  entry 255. The colour is represented by the number of its table entry.
\<close>

definition viridis :: "real \<Rightarrow> nat" where
  "viridis x = (if x < 0 then 0 else if 1 \<le> x then 255 else nat \<lfloor>x * 256\<rfloor>)"

record patch =
  polygon :: "row list"
  facecolor :: nat

record figure =
  patches :: "patch list"
  scatter :: "(point \<times> int) list"
  annotations :: "(string \<times> point) list"
  xlim :: "real \<times> real"
  ylim :: "real \<times> real"
  saved_to :: "string option"

text \<open>
  \<^verbatim>\<open>mask = clusters == cluster_id; cluster_points = points_2d[mask]\<close>. A boolean index
  whose length differs from the array's raises \<^verbatim>\<open>IndexError\<close>.
\<close>

definition cluster_points_of :: "point list \<Rightarrow> int list \<Rightarrow> int \<Rightarrow> error + point list" where
  "cluster_points_of points_2d clusters cluster_id =
     (if length clusters \<noteq> length points_2d
      then Inl (IndexError ''boolean index did not match indexed array'')
      else Inr (map fst (filter (\<lambda>pc. snd pc = cluster_id) (zip points_2d clusters))))"

text \<open>Lines 30 to 40: the boundary polygon of one cluster, \<open>None\<close> below 3 members.\<close>

definition cluster_boundary :: "point list \<Rightarrow> error + row list option" where
  "cluster_boundary cluster_points =
     (if 3 \<le> length cluster_points then
        (case ConvexHull cluster_points of
           Inl e \<Rightarrow> Inl e
         | Inr vertices \<Rightarrow>
             (case buffer_hull (map (\<lambda>i. cluster_points ! i) vertices) of
                Inl e \<Rightarrow> Inl e
              | Inr buffered_points \<Rightarrow> Inr (Some buffered_points)))
      else Inr None)"

text \<open>Line 43: \<^verbatim>\<open>plt.cm.viridis(cluster_id / len(np.unique(clusters)))\<close>\<close>

definition hull_color :: "int list \<Rightarrow> int \<Rightarrow> nat" where
  "hull_color clusters cluster_id =
     viridis (real_of_int cluster_id / real (length (np_unique clusters)))"

text \<open>
  Lines 47 to 49: \<^verbatim>\<open>plt.scatter(..., c=clusters, cmap="viridis")\<close>. Matplotlib
  normalises the colour values linearly between their least and greatest value before
  the colormap lookup (\<^verbatim>\<open>Normalize\<close>, which maps every value to 0 when the two
  coincide). This is the colour of the points of a cluster, for a non-empty label array.
\<close>

definition scatter_color :: "int list \<Rightarrow> int \<Rightarrow> nat" where
  "scatter_color clusters cluster_id =
     (let vmin = Min (set clusters); vmax = Max (set clusters)
      in viridis (if vmin = vmax then 0
                  else real_of_int (cluster_id - vmin) / real_of_int (vmax - vmin)))"

text \<open>One pass of the loop of line 26.\<close>

definition hull_patch :: "point list \<Rightarrow> int list \<Rightarrow> int \<Rightarrow> error + patch option" where
  "hull_patch points_2d clusters cluster_id =
     (case cluster_points_of points_2d clusters cluster_id of
        Inl e \<Rightarrow> Inl e
      | Inr cluster_points \<Rightarrow>
          (case cluster_boundary cluster_points of
             Inl e \<Rightarrow> Inl e
           | Inr None \<Rightarrow> Inr None
           | Inr (Some buffered_points) \<Rightarrow>
               Inr (Some \<lparr>polygon = buffered_points,
                          facecolor = hull_color clusters cluster_id\<rparr>)))"

text \<open>The loop itself: the first exception ends it.\<close>

fun draw_hulls :: "point list \<Rightarrow> int list \<Rightarrow> int list \<Rightarrow> error + patch list" where
  "draw_hulls points_2d clusters [] = Inr []"
| "draw_hulls points_2d clusters (cluster_id # rest) =
     (case hull_patch points_2d clusters cluster_id of
        Inl e \<Rightarrow> Inl e
      | Inr drawn \<Rightarrow>
          (case draw_hulls points_2d clusters rest of
             Inl e \<Rightarrow> Inl e
           | Inr ps \<Rightarrow> Inr (case drawn of None \<Rightarrow> ps | Some p \<Rightarrow> p # ps)))"

text \<open>
  Lines 60 to 65 for one axis: \<^verbatim>\<open>min()\<close> and \<^verbatim>\<open>max()\<close> of an empty array raise
  \<^verbatim>\<open>ValueError\<close>.
\<close>

definition view_limits :: "real list \<Rightarrow> error + (real \<times> real)" where
  "view_limits xs =
     (if xs = [] then Inl (ValueError ''zero-size array to reduction operation'')
      else (let x_min = Min (set xs); x_max = Max (set xs);
                padding_x = (x_max - x_min) * 0.2
            in Inr (x_min - padding_x, x_max + padding_x)))"

text \<open>
  The whole function, in the order of the source: hull overlays, scatter (which raises
  \<^verbatim>\<open>ValueError\<close> when the colour array has another size than the points), annotations
  (\<^verbatim>\<open>points_2d[i, 0]\<close> raises \<^verbatim>\<open>IndexError\<close> for a user without a point), view limits,
  output.
\<close>

definition plot_opinion_clusters ::
  "point list \<Rightarrow> int list \<Rightarrow> string list \<Rightarrow> string option \<Rightarrow> error + figure" where
  "plot_opinion_clusters points_2d clusters usernames output_path =
     (case draw_hulls points_2d clusters (np_unique clusters) of
        Inl e \<Rightarrow> Inl e
      | Inr ps \<Rightarrow>
          if length clusters \<noteq> length points_2d
          then Inl (ValueError ''c argument is inconsistent with x and y'')
          else if length points_2d < length usernames
          then Inl (IndexError ''index is out of bounds for axis 0'')
          else
            (case view_limits (map fst points_2d) of
               Inl e \<Rightarrow> Inl e
             | Inr xl \<Rightarrow>
                 (case view_limits (map snd points_2d) of
                    Inl e \<Rightarrow> Inl e
                  | Inr yl \<Rightarrow>
                      Inr \<lparr>patches = ps,
                           scatter = zip points_2d clusters,
                           annotations = zip usernames points_2d,
                           xlim = xl, ylim = yl,
                           saved_to = output_path\<rparr>)))"

section \<open>Pipeline: \<^verbatim>\<open>main\<close>\<close>

text \<open>
  \<^verbatim>\<open>main\<close> depends on three things outside the repository, taken as parameters:
  \<^verbatim>\<open>OpinionAnalyzer().analyze\<close>, the random source (\<open>normal i\<close> is the draw of
  \<^verbatim>\<open>np.random.normal(0, 0.1, shape)\<close> for row \<open>i\<close>) and
  \<^verbatim>\<open>Path(yaml_file).with_suffix(".png")\<close>. The result records the calls made to the
  analyzer besides the outcome.
\<close>

record run =
  analyzer_calls :: "(int list list \<times> string list) list"
  outcome :: "error + figure"

definition main ::
  "(int list list \<Rightarrow> string list \<Rightarrow> error + (point list \<times> int list)) \<Rightarrow> (nat \<Rightarrow> point)
     \<Rightarrow> (string \<Rightarrow> string) \<Rightarrow> string \<Rightarrow> document \<Rightarrow> run" where
  "main analyze normal with_suffix yaml_file data =
     (case load_from_yaml data of
        Inl e \<Rightarrow> \<lparr>analyzer_calls = [], outcome = Inl e\<rparr>
      | Inr (sts, votes_matrix, usernames) \<Rightarrow>
          \<lparr>analyzer_calls = [(votes_matrix, sts)],
           outcome =
             (case analyze votes_matrix sts of
                Inl e \<Rightarrow> Inl e
              | Inr (points_2d, clusters) \<Rightarrow>
                  (let jitter = map normal [0..<length points_2d];
                       jittered_points =
                         map2 (\<lambda>p j. (fst p + fst j, snd p + snd j)) points_2d jitter
                   in plot_opinion_clusters jittered_points clusters usernames
                        (Some (with_suffix yaml_file))))\<rparr>)"

section \<open>Auxiliary notions used in the statements\<close>

text \<open>
  The rank of a label among the distinct labels: its position in \<^verbatim>\<open>np.unique(clusters)\<close>.
\<close>

definition rank_of :: "int list \<Rightarrow> int \<Rightarrow> nat" where
  "rank_of clusters cluster_id = index_of (np_unique clusters) cluster_id"

text \<open>
  A stand-in for the analyzer in concrete runs: it places every participant at the
  origin, in cluster 0.
\<close>

definition stub_analyzer :: "int list list \<Rightarrow> string list \<Rightarrow> error + (point list \<times> int list)" where
  "stub_analyzer m sts = Inr (map (\<lambda>r. (0, 0)) m, map (\<lambda>r. 0) m)"

text \<open>The Euclidean distance between two points of the plot.\<close>

definition distance :: "point \<Rightarrow> point \<Rightarrow> real" where
  "distance a b = sqrt ((fst a - fst b)\<^sup>2 + (snd a - snd b)\<^sup>2)"

text \<open>
  One row of lines 36 to 39: the vertex \<open>p\<close> moved away from the centroid by half of the
  normalised centroid-to-vertex vector. \<open>buffer_hull\<close> computes this row for every hull
  vertex (lemma \<open>buffer_hull_rows\<close> below).
\<close>

definition offset_vertex :: "point \<Rightarrow> point \<Rightarrow> row" where
  "offset_vertex centroid p =
     row_offset p
       (row_div (fst p - fst centroid, snd p - snd centroid)
          (sqrt ((fst p - fst centroid)\<^sup>2 + (snd p - snd centroid)\<^sup>2)))"

section \<open>Properties of the vote matrix builder\<close>

lemma vote_map_agree: "dict_get vote_map ''agree'' 0 = 1"
  by (simp add: dict_get_def vote_map_def)

lemma vote_map_disagree: "dict_get vote_map ''disagree'' 0 = - 1"
  by (simp add: dict_get_def vote_map_def)

lemma vote_map_other:
  "v \<noteq> ''agree'' \<Longrightarrow> v \<noteq> ''disagree'' \<Longrightarrow> dict_get vote_map v 0 = 0"
  by (simp add: dict_get_def vote_map_def)

lemma vote_token_value:
  "dict_get vote_map v 0 = (if v = ''agree'' then 1 else if v = ''disagree'' then - 1 else 0)"
  by (simp add: dict_get_def vote_map_def)

lemma load_from_yaml_matrix:
  "load_from_yaml data = Inr (sts, m, users) \<Longrightarrow> m = vote_rows data"
  by (auto simp: load_from_yaml_def np_array_def split: if_splits)

text \<open>
  Claim C5. For every document, the builder turns each participant's tokens into a row
  in which "agree" is +1, "disagree" is -1 and every other token, the empty string and
  misspellings included, is 0: this is so of the rows it builds and of the matrix
  \<^verbatim>\<open>load_from_yaml\<close> returns. With a single participant the array is always built, so
  \<^verbatim>\<open>load_from_yaml\<close> returns that row whatever the tokens are; from
  ["agree", "disagree", "maybe"] it returns [1, -1, 0].
\<close>

theorem vote_mapping_lexicon:
  "vote_rows data
     = map (map (\<lambda>v. if v = ''agree'' then 1 else if v = ''disagree'' then - 1 else 0))
         (map snd (votes data))
   \<and> (load_from_yaml data = Inr (sts, m, users) \<longrightarrow>
        m = map (map (\<lambda>v. if v = ''agree'' then 1 else if v = ''disagree'' then - 1 else 0))
              (map snd (votes data)))
   \<and> load_from_yaml \<lparr>statements = ss, votes = [(u, tokens)]\<rparr>
       = Inr (ss, [map (\<lambda>v. if v = ''agree'' then 1 else if v = ''disagree'' then - 1 else 0)
                     tokens], [u])
   \<and> load_from_yaml \<lparr>statements = ss, votes = [(u, [''agree'', ''disagree'', ''maybe''])]\<rparr>
       = Inr (ss, [[1, - 1, 0]], [u])"
proof -
  have rows: "vote_rows d
      = map (map (\<lambda>v. if v = ''agree'' then 1 else if v = ''disagree'' then - 1 else 0))
          (map snd (votes d))" for d
    by (simp add: vote_rows_def vote_token_value)
  have single: "load_from_yaml \<lparr>statements = ss, votes = [(u, ts)]\<rparr>
      = Inr (ss, [map (\<lambda>v. if v = ''agree'' then 1 else if v = ''disagree'' then - 1 else 0)
                    ts], [u])" for ts
    by (simp add: load_from_yaml_def np_array_def vote_rows_def vote_token_value)
  have "load_from_yaml data = Inr (sts, m, users) \<longrightarrow> m = vote_rows data"
    using load_from_yaml_matrix by blast
  then have matrix: "load_from_yaml data = Inr (sts, m, users) \<longrightarrow>
        m = map (map (\<lambda>v. if v = ''agree'' then 1 else if v = ''disagree'' then - 1 else 0))
              (map snd (votes data))"
    by (simp only: rows)
  have example: "load_from_yaml
        \<lparr>statements = ss, votes = [(u, [''agree'', ''disagree'', ''maybe''])]\<rparr>
       = Inr (ss, [[1, - 1, 0]], [u])"
    by (simp add: single)
  show ?thesis
    using rows [of data] matrix single [of tokens] example by blast
qed

theorem vote_mapping_lexicon_witness:
  "load_from_yaml \<lparr>statements = [''s1'', ''s2'', ''s3''],
        votes = [(''alice'', [''agree'', ''disagree'', ''maybe'']),
                 (''bob'', ['''', ''Agree'', ''disagre''])]\<rparr>
     = Inr ([''s1'', ''s2'', ''s3''], [[1, - 1, 0], [0, 0, 0]], [''alice'', ''bob''])"
proof -
  let ?d = "\<lparr>statements = [''s1'', ''s2'', ''s3''],
        votes = [(''alice'', [''agree'', ''disagree'', ''maybe'']),
                 (''bob'', ['''', ''Agree'', ''disagre''])]\<rparr>"
  have "load_from_yaml ?d = Inr ([''s1'', ''s2'', ''s3''], vote_rows ?d, [''alice'', ''bob''])"
    by (simp add: load_from_yaml_def np_array_def vote_rows_def)
  then show ?thesis
    using vote_mapping_lexicon [of ?d "[''s1'', ''s2'', ''s3'']" "vote_rows ?d"
        "[''alice'', ''bob'']"]
    by simp
qed

lemma np_array_uniform:
  "np_array rows =
     (if \<forall>r\<in>set rows. length r = length (hd rows) then Inr rows
      else Inl (ValueError ''inhomogeneous shape''))"
  by (simp add: np_array_def list_all_iff)

lemma length_vote_rows:
  "map length (vote_rows data) = map (\<lambda>uv. length (snd uv)) (votes data)"
  by (simp add: vote_rows_def comp_def)

lemma vote_rows_uniform_iff:
  "(\<forall>r\<in>set (vote_rows data). length r = length (hd (vote_rows data)))
   \<longleftrightarrow> (\<forall>uv\<in>set (votes data). length (snd uv) = length (snd (hd (votes data))))"
proof (cases "votes data")
  case Nil
  then show ?thesis by (simp add: vote_rows_def)
next
  case (Cons a as)
  then show ?thesis by (simp add: vote_rows_def)
qed

text \<open>
  Claim C1, as stated, fails. A document with two statements and one participant who
  cast a single vote is accepted by the builder, and the analyzer is called with the
  one-column matrix.
\<close>

theorem mismatch_reaches_analyzer:
  "length [''agree''] \<noteq> length [''s1'', ''s2'']
   \<and> load_from_yaml \<lparr>statements = [''s1'', ''s2''], votes = [(''alice'', [''agree''])]\<rparr>
       = Inr ([''s1'', ''s2''], [[1]], [''alice''])
   \<and> analyzer_calls
        (main stub_analyzer (\<lambda>i. (0, 0)) (\<lambda>f. f @ ''.png'') ''in''
           \<lparr>statements = [''s1'', ''s2''], votes = [(''alice'', [''agree''])]\<rparr>)
       = [([[1]], [''s1'', ''s2''])]"
  by (simp add: load_from_yaml_def main_def np_array_def vote_rows_def dict_get_def vote_map_def)

text \<open>
  Claim C1, amended. The builder never pads or truncates: each row has exactly as many
  entries as the participant cast votes. It never compares a row with the statement
  count. It fails, before the analyzer is called, exactly when the participants' vote
  sequences differ in length among themselves; when they all have one length, whatever
  the number of statements, it succeeds and the analyzer is called with those rows.
\<close>

theorem builder_checks_rows_only:
  "map length (vote_rows data) = map (\<lambda>uv. length (snd uv)) (votes data)
   \<and> load_from_yaml data =
       (if \<forall>uv\<in>set (votes data). length (snd uv) = length (snd (hd (votes data)))
        then Inr (statements data, vote_rows data, map fst (votes data))
        else Inl (ValueError ''inhomogeneous shape''))
   \<and> analyzer_calls (main analyze normal with_suffix yaml_file data) =
       (if \<forall>uv\<in>set (votes data). length (snd uv) = length (snd (hd (votes data)))
        then [(vote_rows data, statements data)] else [])"
  by (simp add: length_vote_rows load_from_yaml_def main_def np_array_uniform
      vote_rows_uniform_iff)

theorem builder_checks_rows_only_witness:
  "load_from_yaml \<lparr>statements = [''s1'', ''s2''],
        votes = [(''alice'', [''agree'']), (''bob'', [''no''])]\<rparr>
       = Inr ([''s1'', ''s2''], [[1], [0]], [''alice'', ''bob''])
   \<and> analyzer_calls (main stub_analyzer (\<lambda>i. (0, 0)) (\<lambda>f. f @ ''.png'') ''in''
        \<lparr>statements = [''s1''], votes = [(''alice'', [''agree'']), (''bob'', [])]\<rparr>) = []"
  using builder_checks_rows_only [of "\<lparr>statements = [''s1'', ''s2''],
        votes = [(''alice'', [''agree'']), (''bob'', [''no''])]\<rparr>"
        stub_analyzer "\<lambda>i. (0, 0)" "\<lambda>f. f @ ''.png''" "''in''"]
    builder_checks_rows_only [of "\<lparr>statements = [''s1''],
        votes = [(''alice'', [''agree'']), (''bob'', [])]\<rparr>"
        stub_analyzer "\<lambda>i. (0, 0)" "\<lambda>f. f @ ''.png''" "''in''"]
  by (simp add: vote_rows_def dict_get_def vote_map_def)

section \<open>Properties of the viewport\<close>

lemma view_limits_Inr:
  assumes "view_limits xs = Inr l"
  shows "xs \<noteq> []"
    and "l = (Min (set xs) - (Max (set xs) - Min (set xs)) * 0.2,
              Max (set xs) + (Max (set xs) - Min (set xs)) * 0.2)"
  using assms by (auto simp: view_limits_def Let_def split: if_splits)

lemma view_limits_bounds:
  assumes "view_limits xs = Inr l" and "x \<in> set xs"
  shows "fst l \<le> x \<and> x \<le> snd l"
proof -
  define m M where "m = Min (set xs)" and "M = Max (set xs)"
  have lo: "m \<le> x" and hi: "x \<le> M"
    using assms(2) by (simp_all add: m_def M_def)
  have l: "l = (m - (M - m) * 0.2, M + (M - m) * 0.2)"
    using view_limits_Inr(2) [OF assms(1)] by (simp add: m_def M_def)
  have "m \<le> M" using lo hi by (rule order_trans)
  then have "0 \<le> (M - m) * 0.2" by simp
  then have "m - (M - m) * 0.2 \<le> x" "x \<le> M + (M - m) * 0.2"
    using lo hi by linarith+
  then show ?thesis by (simp add: l)
qed

lemma plot_Inr_limits:
  assumes "plot_opinion_clusters points_2d clusters usernames output_path = Inr fig"
  shows "view_limits (map fst points_2d) = Inr (xlim fig)"
    and "view_limits (map snd points_2d) = Inr (ylim fig)"
  using assms
  by (auto simp: plot_opinion_clusters_def split: sum.splits if_splits)

text \<open>
  Claim C6. Whenever the figure is produced, the axis limits are the per-axis minimum
  minus 20% of that axis's span and the per-axis maximum plus 20% of it, and every
  plotted point lies within them. This holds for every point set the function accepts,
  those of positive span in particular.
\<close>

theorem viewport_contains_points:
  assumes "plot_opinion_clusters points_2d clusters usernames output_path = Inr fig"
    and "p \<in> set points_2d"
  shows "xlim fig = (Min (fst ` set points_2d)
                       - (Max (fst ` set points_2d) - Min (fst ` set points_2d)) * 0.2,
                     Max (fst ` set points_2d)
                       + (Max (fst ` set points_2d) - Min (fst ` set points_2d)) * 0.2)
       \<and> ylim fig = (Min (snd ` set points_2d)
                       - (Max (snd ` set points_2d) - Min (snd ` set points_2d)) * 0.2,
                     Max (snd ` set points_2d)
                       + (Max (snd ` set points_2d) - Min (snd ` set points_2d)) * 0.2)
       \<and> fst (xlim fig) \<le> fst p \<and> fst p \<le> snd (xlim fig)
       \<and> fst (ylim fig) \<le> snd p \<and> snd p \<le> snd (ylim fig)"
proof -
  note xl = plot_Inr_limits(1) [OF assms(1)] and yl = plot_Inr_limits(2) [OF assms(1)]
  have "fst p \<in> set (map fst points_2d)" "snd p \<in> set (map snd points_2d)"
    using assms(2) by simp_all
  then have "fst (xlim fig) \<le> fst p \<and> fst p \<le> snd (xlim fig)"
    and "fst (ylim fig) \<le> snd p \<and> snd p \<le> snd (ylim fig)"
    using view_limits_bounds [OF xl] view_limits_bounds [OF yl] by blast+
  then show ?thesis
    using view_limits_Inr(2) [OF xl] view_limits_Inr(2) [OF yl] by simp
qed

lemma plot_two_points:
  "plot_opinion_clusters [(1, 2), (3, 7)] [0, 1] [''ann'', ''bo''] None
     = Inr \<lparr>patches = [], scatter = [((1, 2), 0), ((3, 7), 1)],
            annotations = [(''ann'', (1, 2)), (''bo'', (3, 7))],
            xlim = (3 / 5, 17 / 5), ylim = (1, 8), saved_to = None\<rparr>"
  by (simp add: plot_opinion_clusters_def np_unique_def hull_patch_def cluster_points_of_def
      cluster_boundary_def view_limits_def)

theorem viewport_contains_points_witness:
  "plot_opinion_clusters [(1, 2), (3, 7)] [0, 1] [''ann'', ''bo''] None
     = Inr \<lparr>patches = [], scatter = [((1, 2), 0), ((3, 7), 1)],
            annotations = [(''ann'', (1, 2)), (''bo'', (3, 7))],
            xlim = (3 / 5, 17 / 5), ylim = (1, 8), saved_to = None\<rparr>
   \<and> (3, 7) \<in> set [(1, 2), (3, 7 :: real)]
   \<and> (3 / 5 :: real) \<le> 3 \<and> (3 :: real) \<le> 17 / 5 \<and> (1 :: real) \<le> 7 \<and> (7 :: real) \<le> 8"
  using viewport_contains_points [OF plot_two_points, of "(3, 7)"] plot_two_points
  by simp

lemma draw_hulls_no_points:
  "clusters \<noteq> [] \<Longrightarrow> \<exists>e. draw_hulls [] clusters (np_unique clusters) = Inl e"
proof -
  assume "clusters \<noteq> []"
  then have "np_unique clusters \<noteq> []"
    by (metis np_unique_def set_empty set_remdups set_sort)
  then obtain c cs where "np_unique clusters = c # cs" by (cases "np_unique clusters") auto
  then show ?thesis
    using \<open>clusters \<noteq> []\<close> by (simp add: hull_patch_def cluster_points_of_def)
qed

text \<open>
  Claim C10. With at least one point the per-axis minimum and maximum exist and the view
  limits are computed; called without points, \<^verbatim>\<open>plot_opinion_clusters\<close> raises instead
  of returning a figure, whatever its other arguments.
\<close>

theorem rendering_needs_points:
  "(points_2d \<noteq> [] \<longrightarrow>
      (\<exists>xl yl. view_limits (map fst points_2d) = Inr xl
              \<and> view_limits (map snd points_2d) = Inr yl))
   \<and> (\<exists>e. plot_opinion_clusters [] clusters usernames output_path = Inl e)"
proof -
  have "\<exists>e. plot_opinion_clusters [] clusters usernames output_path = Inl e"
  proof (cases "clusters = []")
    case True
    then show ?thesis
      by (simp add: plot_opinion_clusters_def np_unique_def view_limits_def)
  next
    case False
    then show ?thesis
      using draw_hulls_no_points [OF False] by (auto simp: plot_opinion_clusters_def)
  qed
  then show ?thesis by (simp add: view_limits_def Let_def)
qed

theorem rendering_needs_points_witness:
  "[(1, 2), (3, 7 :: real)] \<noteq> []
   \<and> view_limits (map fst [(1, 2), (3, 7 :: real)]) = Inr (3 / 5, 17 / 5)
   \<and> view_limits (map snd [(1, 2), (3, 7 :: real)]) = Inr (1, 8)
   \<and> plot_opinion_clusters [] [] [] None
       = Inl (ValueError ''zero-size array to reduction operation'')"
  using rendering_needs_points [of "[(1, 2), (3, 7)]" "[]" "[]" None]
  by (simp add: view_limits_def plot_opinion_clusters_def np_unique_def)

section \<open>Properties of the hull and its buffer\<close>

subsection \<open>Directions in a half-plane\<close>

text \<open>
  Seen from the lexicographically least point of a set, every other point lies in the
  half-plane \<open>0 < x \<or> x = 0 \<and> 0 < y\<close>; seen from the greatest, in the opposite one.
  Within such a half-plane the directions are linearly ordered by the sign of the cross
  product, so among finitely many there is a first one.
\<close>

lemma turn_trans:
  fixes ax ay qx qy rx ry :: real
  assumes a: "0 < ax \<or> ax = 0 \<and> 0 < ay"
    and q: "0 < qx \<or> qx = 0 \<and> 0 < qy"
    and r: "0 < rx \<or> rx = 0 \<and> 0 < ry"
    and aq: "0 \<le> ax * qy - ay * qx"
    and qr: "0 \<le> qx * ry - qy * rx"
  shows "0 \<le> ax * ry - ay * rx"
proof (cases "0 < qx")
  case True
  have ax: "0 \<le> ax" and rx: "0 \<le> rx" using a r by auto
  have "(ax * ry - ay * rx) * qx = (ax * qy - ay * qx) * rx + (qx * ry - qy * rx) * ax"
    by (simp add: algebra_simps)
  moreover have "0 \<le> (ax * qy - ay * qx) * rx + (qx * ry - qy * rx) * ax"
    using aq qr ax rx by simp
  ultimately have "0 \<le> (ax * ry - ay * rx) * qx" by simp
  then show ?thesis using True by (simp add: zero_le_mult_iff)
next
  case False
  then have q0: "qx = 0" "0 < qy" using q by auto
  have "0 \<le> - (qy * rx)" using qr q0 by simp
  then have "rx \<le> 0" using q0 by (simp add: mult_le_0_iff)
  then have r0: "rx = 0" "0 < ry" using r by auto
  have "0 \<le> ax" using a by auto
  then show ?thesis using r0 by simp
qed

lemma parallel_same_side:
  fixes qx qy rx ry :: real
  assumes q: "0 < qx \<or> qx = 0 \<and> 0 < qy"
    and r: "0 < rx \<or> rx = 0 \<and> 0 < ry"
    and par: "qx * ry - qy * rx = 0"
  shows "0 < qx * rx + qy * ry"
proof (cases "0 < qx")
  case True
  have "rx \<noteq> 0"
  proof
    assume "rx = 0"
    then have "qx * ry = 0" "0 < ry" using par r by auto
    then show False using True by simp
  qed
  then have rx: "0 < rx" using r by auto
  have "(qx * rx + qy * ry) * (qx * rx) = (qx * rx)\<^sup>2 + (qy * rx) * (qx * ry)"
    by (simp add: algebra_simps power2_eq_square)
  also have "\<dots> = (qx * rx)\<^sup>2 + (qy * rx)\<^sup>2"
    using par by (simp add: power2_eq_square)
  finally have "(qx * rx + qy * ry) * (qx * rx) = (qx * rx)\<^sup>2 + (qy * rx)\<^sup>2" .
  moreover have "0 < (qx * rx)\<^sup>2 + (qy * rx)\<^sup>2"
    using True rx by (simp add: sum_power2_gt_zero_iff)
  ultimately have "0 < (qx * rx + qy * ry) * (qx * rx)" by simp
  moreover have "0 < qx * rx" using True rx by simp
  ultimately show ?thesis by (simp add: zero_less_mult_iff)
next
  case False
  then have q0: "qx = 0" "0 < qy" using q by auto
  then have "rx = 0" using par by simp
  then have "0 < ry" using r by auto
  then show ?thesis using q0 by simp
qed


lemma cross_self [simp]: "cross p q p = 0" "cross p q q = 0"
  by (simp_all add: cross_def)

lemma dot_self [simp]: "dot p q p = 0"
  by (simp add: dot_def)

lemma cross_flip: "cross m q a = - cross m a q"
  by (simp add: cross_def algebra_simps)

lemma angular_least:
  fixes s :: real
  assumes "S \<noteq> []" and s: "s * s = 1"
    and "\<forall>r\<in>set S. 0 < s * (fst r - fst m)
            \<or> s * (fst r - fst m) = 0 \<and> 0 < s * (snd r - snd m)"
  shows "\<exists>q\<in>set S. \<forall>r\<in>set S. 0 \<le> cross m q r"
  using assms(1,3)
proof (induction S rule: list_nonempty_induct)
  case (single a)
  then show ?case by simp
next
  case (cons a S)
  then obtain q where q: "q \<in> set S" "\<forall>r\<in>set S. 0 \<le> cross m q r" by auto
  have scaled: "s * (fst x - fst m) * (s * (snd y - snd m))
                 - s * (snd x - snd m) * (s * (fst y - fst m)) = cross m x y" for x y
  proof -
    have "s * (fst x - fst m) * (s * (snd y - snd m))
            - s * (snd x - snd m) * (s * (fst y - fst m)) = (s * s) * cross m x y"
      by (simp add: cross_def algebra_simps)
    then show ?thesis using s by simp
  qed
  show ?case
  proof (cases "0 \<le> cross m a q")
    case True
    have "0 \<le> cross m a r" if "r \<in> set S" for r
    proof -
      have "0 \<le> s * (fst a - fst m) * (s * (snd r - snd m))
                  - s * (snd a - snd m) * (s * (fst r - fst m))"
      proof (rule turn_trans)
        show "0 < s * (fst a - fst m) \<or> s * (fst a - fst m) = 0 \<and> 0 < s * (snd a - snd m)"
          using cons.prems by simp
        show "0 < s * (fst q - fst m) \<or> s * (fst q - fst m) = 0 \<and> 0 < s * (snd q - snd m)"
          using cons.prems q(1) by simp
        show "0 < s * (fst r - fst m) \<or> s * (fst r - fst m) = 0 \<and> 0 < s * (snd r - snd m)"
          using cons.prems that by simp
        show "0 \<le> s * (fst a - fst m) * (s * (snd q - snd m))
                    - s * (snd a - snd m) * (s * (fst q - fst m))"
          using True by (simp only: scaled)
        show "0 \<le> s * (fst q - fst m) * (s * (snd r - snd m))
                    - s * (snd q - snd m) * (s * (fst r - fst m))"
          using q(2) that by (simp only: scaled)
      qed
      then show ?thesis by (simp only: scaled)
    qed
    then show ?thesis by auto
  next
    case False
    then have "0 \<le> cross m q a" using cross_flip [of m q a] by simp
    then show ?thesis using q by auto
  qed
qed

lemma outermost_extreme:
  fixes s :: real
  assumes s: "s * s = 1"
    and side: "\<forall>r\<in>set pts. r \<noteq> m \<longrightarrow>
                 0 < s * (fst r - fst m) \<or> s * (fst r - fst m) = 0 \<and> 0 < s * (snd r - snd m)"
    and other: "\<exists>q\<in>set pts. q \<noteq> m"
  shows "extreme pts m"
proof -
  let ?S = "filter (\<lambda>r. r \<noteq> m) pts"
  have ne: "?S \<noteq> []" using other by (simp add: filter_empty_conv)
  have "\<forall>r\<in>set ?S. 0 < s * (fst r - fst m)
            \<or> s * (fst r - fst m) = 0 \<and> 0 < s * (snd r - snd m)"
    using side by simp
  from angular_least [OF ne s this]
  obtain q where q: "q \<in> set pts" "q \<noteq> m" "\<forall>r\<in>set ?S. 0 \<le> cross m q r" by auto
  have "0 < cross m q r \<or> (cross m q r = 0 \<and> 0 < dot m q r)"
    if r: "r \<in> set pts" "r \<noteq> m" for r
  proof (cases "cross m q r = 0")
    case False
    have "r \<in> set ?S" using r by simp
    then have "0 \<le> cross m q r" using q(3) by blast
    then show ?thesis using False by simp
  next
    case True
    have "0 < s * (fst q - fst m) * (s * (fst r - fst m))
              + s * (snd q - snd m) * (s * (snd r - snd m))"
    proof (rule parallel_same_side)
      show "0 < s * (fst q - fst m) \<or> s * (fst q - fst m) = 0 \<and> 0 < s * (snd q - snd m)"
        using side q by simp
      show "0 < s * (fst r - fst m) \<or> s * (fst r - fst m) = 0 \<and> 0 < s * (snd r - snd m)"
        using side r by simp
      have "s * (fst q - fst m) * (s * (snd r - snd m))
             - s * (snd q - snd m) * (s * (fst r - fst m)) = (s * s) * cross m q r"
        by (simp add: cross_def algebra_simps)
      then show "s * (fst q - fst m) * (s * (snd r - snd m))
             - s * (snd q - snd m) * (s * (fst r - fst m)) = 0"
        using True by simp
    qed
    moreover have "s * (fst q - fst m) * (s * (fst r - fst m))
              + s * (snd q - snd m) * (s * (snd r - snd m)) = (s * s) * dot m q r"
      by (simp add: dot_def algebra_simps)
    ultimately have "0 < dot m q r" using s by simp
    then show ?thesis using True by simp
  qed
  then show ?thesis using q(1,2) unfolding extreme_def by blast
qed

subsection \<open>The centroid of the hull vertices is not a vertex\<close>

text \<open>
  The cross product and the dot product are affine in their last argument, so their
  sum over a list is the list's length times their value at the mean.
\<close>

lemma affine_sum:
  fixes a b c :: real
  shows "sum_list (map (\<lambda>w. a * fst w + b * snd w + c) ws)
         = a * sum_list (map fst ws) + b * sum_list (map snd ws) + real (length ws) * c"
  by (induction ws) (simp_all add: algebra_simps)

lemma cross_sum:
  assumes "ws \<noteq> []"
  shows "sum_list (map (cross v q) ws) = real (length ws) * cross v q (np_mean ws)"
proof -
  have n: "real (length ws) \<noteq> 0" using assms by simp
  have "cross v q = (\<lambda>w. - (snd q - snd v) * fst w + (fst q - fst v) * snd w
                        + ((snd q - snd v) * fst v - (fst q - fst v) * snd v))"
    by (rule ext) (simp add: cross_def algebra_simps)
  then have "sum_list (map (cross v q) ws)
      = - (snd q - snd v) * sum_list (map fst ws) + (fst q - fst v) * sum_list (map snd ws)
        + real (length ws) * ((snd q - snd v) * fst v - (fst q - fst v) * snd v)"
    by (simp only: affine_sum)
  also have "\<dots> = real (length ws) * cross v q (np_mean ws)"
    using n by (simp add: cross_def np_mean_def field_simps)
  finally show ?thesis .
qed

lemma dot_sum:
  assumes "ws \<noteq> []"
  shows "sum_list (map (dot v q) ws) = real (length ws) * dot v q (np_mean ws)"
proof -
  have n: "real (length ws) \<noteq> 0" using assms by simp
  have "dot v q = (\<lambda>w. (fst q - fst v) * fst w + (snd q - snd v) * snd w
                        + (- (fst q - fst v) * fst v - (snd q - snd v) * snd v))"
    by (rule ext) (simp add: dot_def algebra_simps)
  then have "sum_list (map (dot v q) ws)
      = (fst q - fst v) * sum_list (map fst ws) + (snd q - snd v) * sum_list (map snd ws)
        + real (length ws) * (- (fst q - fst v) * fst v - (snd q - snd v) * snd v)"
    by (simp only: affine_sum)
  also have "\<dots> = real (length ws) * dot v q (np_mean ws)"
    using n by (simp add: dot_def np_mean_def field_simps)
  finally show ?thesis .
qed

lemma vertex_not_centroid:
  assumes ext: "extreme pts v" and sub: "set ws \<subseteq> set pts"
    and other: "w \<in> set ws" "w \<noteq> v"
  shows "np_mean ws \<noteq> v"
proof
  assume eq: "np_mean ws = v"
  obtain q where q: "q \<in> set pts" "q \<noteq> v"
    "\<forall>r\<in>set pts. r \<noteq> v \<longrightarrow> 0 < cross v q r \<or> (cross v q r = 0 \<and> 0 < dot v q r)"
    using ext unfolding extreme_def by blast
  have ne: "ws \<noteq> []" using other(1) by auto
  have turn: "0 \<le> cross v q r" if "r \<in> set ws" for r
    using q(3) sub that by (cases "r = v") auto
  have "sum_list (map (cross v q) ws) = 0"
    using cross_sum [OF ne, of v q] eq by simp
  moreover have "\<And>x. x \<in> set (map (cross v q) ws) \<Longrightarrow> 0 \<le> x"
    using turn by auto
  ultimately have "\<forall>x\<in>set (map (cross v q) ws). x = 0"
    by (simp only: sum_list_nonneg_eq_0_iff)
  then have flat: "cross v q r = 0" if "r \<in> set ws" for r
    using that by simp
  have along: "0 \<le> dot v q r" if "r \<in> set ws" for r
  proof (cases "r = v")
    case True
    then show ?thesis by simp
  next
    case False
    then show ?thesis using q(3) sub that flat [OF that] by fastforce
  qed
  have "sum_list (map (dot v q) ws) = 0"
    using dot_sum [OF ne, of v q] eq by simp
  moreover have "\<And>x. x \<in> set (map (dot v q) ws) \<Longrightarrow> 0 \<le> x"
    using along by auto
  ultimately have "\<forall>x\<in>set (map (dot v q) ws). x = 0"
    by (simp only: sum_list_nonneg_eq_0_iff)
  then have "dot v q w = 0" using other(1) by simp
  moreover have "0 < dot v q w"
    using q(3) sub other flat [OF other(1)] by fastforce
  ultimately show False by simp
qed

subsection \<open>The rows of the buffered polygon\<close>

lemma buffer_hull_rows:
  "buffer_hull hp =
     (case hp of
        [] \<Rightarrow> Inl (IndexError ''index 0 is out of bounds for axis 0 with size 0'')
      | p # _ \<Rightarrow> Inr (map (offset_vertex (np_mean hp)) hp @ [offset_vertex (np_mean hp) p]))"
proof -
  have rows: "map2 row_offset hp
      (map2 row_div (map (\<lambda>p. (fst p - fst c, snd p - snd c)) hp)
         (map (\<lambda>v. sqrt ((fst v)\<^sup>2 + (snd v)\<^sup>2))
            (map (\<lambda>p. (fst p - fst c, snd p - snd c)) hp)))
      = map (offset_vertex c) hp" for c
    by (induction hp) (simp_all add: offset_vertex_def)
  have "buffer_hull hp =
     (case map (offset_vertex (np_mean hp)) hp of
        [] \<Rightarrow> Inl (IndexError ''index 0 is out of bounds for axis 0 with size 0'')
      | b # _ \<Rightarrow> Inr (map (offset_vertex (np_mean hp)) hp @ [b]))"
    by (simp only: buffer_hull_def Let_def rows)
  then show ?thesis by (cases hp) simp_all
qed

lemma distance_pos: "0 < distance a b \<longleftrightarrow> a \<noteq> b"
proof -
  have "0 < (fst a - fst b)\<^sup>2 + (snd a - snd b)\<^sup>2 \<longleftrightarrow> a \<noteq> b"
    by (simp add: sum_power2_gt_zero_iff prod_eq_iff)
  then show ?thesis by (simp add: distance_def)
qed

lemma offset_vertex_far:
  assumes "p \<noteq> c"
  shows "\<exists>b. offset_vertex c p = Pt (fst b) (snd b)
             \<and> distance b c = distance p c + 0.5"
proof -
  define vx vy l where "vx = fst p - fst c" and "vy = snd p - snd c"
    and "l = sqrt (vx\<^sup>2 + vy\<^sup>2)"
  have l_dist: "l = distance p c" by (simp add: l_def vx_def vy_def distance_def)
  have l_pos: "0 < l" using assms distance_pos [of p c] l_dist by simp
  have l2: "l\<^sup>2 = vx\<^sup>2 + vy\<^sup>2" by (simp add: l_def)
  define k where "k = 1 + 1 / (2 * l)"
  have k_pos: "0 < k" using l_pos by (simp add: k_def add_pos_pos)
  define b where "b = (fst p + vx / l * 0.5, snd p + vy / l * 0.5)"
  have "sqrt ((fst p - fst c)\<^sup>2 + (snd p - snd c)\<^sup>2) \<noteq> 0"
    using l_pos by (simp only: l_def vx_def vy_def)
  then have row: "offset_vertex c p = Pt (fst b) (snd b)"
    by (simp add: offset_vertex_def row_div_def row_offset_def b_def vx_def vy_def l_def)
  have bx: "fst b - fst c = vx * k"
    using l_pos by (simp add: b_def vx_def k_def field_simps)
  have by': "snd b - snd c = vy * k"
    using l_pos by (simp add: b_def vy_def k_def field_simps)
  have "(fst b - fst c)\<^sup>2 + (snd b - snd c)\<^sup>2 = (l * k)\<^sup>2"
    by (simp add: bx by' power_mult_distrib l2 algebra_simps)
  then have "distance b c = \<bar>l * k\<bar>" by (simp add: distance_def)
  also have "\<dots> = l * k" using l_pos k_pos by simp
  also have "\<dots> = l + 0.5" using l_pos by (simp add: k_def field_simps)
  finally show ?thesis using row l_dist by auto
qed

lemma offset_vertex_not_NaN:
  assumes "p \<noteq> c"
  shows "offset_vertex c p \<noteq> NaN"
proof -
  obtain b where "offset_vertex c p = Pt (fst b) (snd b)"
    using offset_vertex_far [OF assms] by blast
  then show ?thesis by simp
qed

subsection \<open>The hull of points that are not all on one line\<close>

lemma nth_index_of: "x \<in> set xs \<Longrightarrow> xs ! index_of xs x = x"
  by (induction xs) auto

lemma sorted_le_last: "sorted xs \<Longrightarrow> x \<in> set xs \<Longrightarrow> x \<le> last xs"
  by (induction xs) auto

lemma set_ccw_order: "set (ccw_order vs) \<subseteq> set vs"
proof (cases "sort vs")
  case Nil
  then show ?thesis by (simp add: ccw_order_def)
next
  case (Cons L rest)
  have "set (L # rest) = set vs" using Cons set_sort [of "\<lambda>x. x" vs] by simp
  then show ?thesis
    unfolding ccw_order_def Cons by (auto simp: Let_def)
qed

lemma ccw_order_two:
  assumes "a \<in> set vs" and "b \<in> set vs" and "a \<noteq> b"
  shows "\<exists>x\<in>set (ccw_order vs). \<exists>y\<in>set (ccw_order vs). x \<noteq> y"
proof -
  have "sort vs \<noteq> []" using assms(1) by (metis empty_iff empty_set set_sort)
  then obtain L rest where s: "sort vs = L # rest" by (cases "sort vs") auto
  define R where "R = last (L # rest)"
  have sorted: "sorted (L # rest)" using s sorted_sort [of vs] by simp
  have mem: "set (L # rest) = set vs" using s set_sort [of "\<lambda>x. x" vs] by simp
  have R_in: "R \<in> set (L # rest)" unfolding R_def by (rule last_in_set) simp
  have lo: "L \<le> x" if "x \<in> set vs" for x
    using sorted mem that by auto
  have hi: "x \<le> R" if "x \<in> set vs" for x
    unfolding R_def using sorted mem that by (intro sorted_le_last) auto
  have "L \<noteq> R"
  proof
    assume "L = R"
    then have "a = L" "b = L"
      using lo [OF assms(1)] hi [OF assms(1)] lo [OF assms(2)] hi [OF assms(2)]
      by (metis order_antisym)+
    then show False using assms(3) by simp
  qed
  moreover have "L \<in> set (ccw_order vs)"
    unfolding ccw_order_def s by (simp add: Let_def)
  moreover have "R \<in> set (ccw_order vs)"
    using R_in \<open>L \<noteq> R\<close> unfolding ccw_order_def s R_def by (auto simp: Let_def)
  ultimately show ?thesis by blast
qed

lemma not_flat_two:
  assumes "\<not> flat pts"
  shows "\<exists>a\<in>set pts. \<exists>b\<in>set pts. a \<noteq> b"
proof -
  obtain p q r where "p \<in> set pts" "q \<in> set pts" "cross p q r \<noteq> 0"
    using assms unfolding flat_def by blast
  moreover have "cross p p r = 0" by (simp add: cross_def)
  ultimately show ?thesis by metis
qed

lemma extremes_exist:
  assumes "\<not> flat pts"
  shows "extreme pts (Min (set pts))" and "extreme pts (Max (set pts))"
    and "Min (set pts) \<noteq> Max (set pts)"
proof -
  obtain a b where ab: "a \<in> set pts" "b \<in> set pts" "a \<noteq> b"
    using not_flat_two [OF assms] by blast
  let ?m = "Min (set pts)" and ?M = "Max (set pts)"
  have m_le: "?m \<le> r" and le_M: "r \<le> ?M" if "r \<in> set pts" for r
    using that by simp_all
  show ne: "?m \<noteq> ?M"
  proof
    assume "?m = ?M"
    then have "a = ?m" "b = ?m"
      using m_le [OF ab(1)] le_M [OF ab(1)] m_le [OF ab(2)] le_M [OF ab(2)]
      by (metis order_antisym)+
    then show False using ab(3) by simp
  qed
  have other_m: "\<exists>q\<in>set pts. q \<noteq> ?m" and other_M: "\<exists>q\<in>set pts. q \<noteq> ?M"
    using ab by metis+
  have "\<forall>r\<in>set pts. r \<noteq> ?m \<longrightarrow>
          0 < 1 * (fst r - fst ?m) \<or> 1 * (fst r - fst ?m) = 0 \<and> 0 < 1 * (snd r - snd ?m)"
  proof (intro ballI impI)
    fix r assume "r \<in> set pts" "r \<noteq> ?m"
    then have "?m < r" using m_le by (simp add: less_le)
    then show "0 < 1 * (fst r - fst ?m) \<or> 1 * (fst r - fst ?m) = 0 \<and> 0 < 1 * (snd r - snd ?m)"
      by (auto simp: less_prod_def')
  qed
  then show "extreme pts ?m"
    using other_m by (intro outermost_extreme [where s = 1]) simp_all
  have "\<forall>r\<in>set pts. r \<noteq> ?M \<longrightarrow>
          0 < - 1 * (fst r - fst ?M)
          \<or> - 1 * (fst r - fst ?M) = 0 \<and> 0 < - 1 * (snd r - snd ?M)"
  proof (intro ballI impI)
    fix r assume "r \<in> set pts" "r \<noteq> ?M"
    then have "r < ?M" using le_M by (simp add: less_le)
    then show "0 < - 1 * (fst r - fst ?M)
          \<or> - 1 * (fst r - fst ?M) = 0 \<and> 0 < - 1 * (snd r - snd ?M)"
      by (auto simp: less_prod_def')
  qed
  then show "extreme pts ?M"
    using other_M by (intro outermost_extreme [where s = "- 1"]) simp_all
qed

lemma hull_points_sound:
  assumes "ConvexHull pts = Inr vertices" and hp: "hp = map (\<lambda>i. pts ! i) vertices"
  shows "hp = ccw_order (filter (extreme pts) (remdups pts))"
    and "set hp \<subseteq> set pts"
    and "\<forall>v\<in>set hp. extreme pts v"
    and "\<exists>x\<in>set hp. \<exists>y\<in>set hp. x \<noteq> y"
proof -
  let ?vs = "filter (extreme pts) (remdups pts)"
  have nf: "\<not> flat pts" and v: "vertices = map (index_of pts) (ccw_order ?vs)"
    using assms(1) by (auto simp: ConvexHull_def split: if_splits)
  have sub: "set (ccw_order ?vs) \<subseteq> set ?vs" by (rule set_ccw_order)
  then have "\<forall>x\<in>set (ccw_order ?vs). pts ! index_of pts x = x"
    by (auto intro: nth_index_of)
  then show eq: "hp = ccw_order ?vs"
    by (simp add: hp v comp_def map_idI)
  show "set hp \<subseteq> set pts" "\<forall>v\<in>set hp. extreme pts v"
    using sub eq by auto
  have "pts \<noteq> []" using not_flat_two [OF nf] by auto
  then have "Min (set pts) \<in> set ?vs" "Max (set pts) \<in> set ?vs"
    using extremes_exist(1,2) [OF nf] by simp_all
  then show "\<exists>x\<in>set hp. \<exists>y\<in>set hp. x \<noteq> y"
    unfolding eq using extremes_exist(3) [OF nf] by (rule ccw_order_two)
qed

lemma hull_vertex_off_centroid:
  assumes "ConvexHull pts = Inr vertices" and hp: "hp = map (\<lambda>i. pts ! i) vertices"
    and v: "v \<in> set hp"
  shows "v \<noteq> np_mean hp"
proof -
  note s = hull_points_sound [OF assms(1) hp]
  obtain w where "w \<in> set hp" "w \<noteq> v" using s(4) by metis
  then show ?thesis
    using vertex_not_centroid [of pts v hp w] s(2,3) v by auto
qed

lemma hull_succeeds_length:
  "ConvexHull pts = Inr vertices \<Longrightarrow> 3 \<le> length pts"
  by (simp add: ConvexHull_def split: if_splits)

lemma triangle_hull: "ConvexHull [(0, 0), (4, 0), (0, 3)] = Inr [0, 1, 2]"
  by (simp add: ConvexHull_def flat_def extreme_def cross_def dot_def ccw_order_def)

lemma triangle_not_flat: "\<not> flat [(0, 0), (4, 0), (0, 3)]"
  by (simp add: flat_def cross_def)

subsection \<open>No division by zero in the buffer\<close>

text \<open>
  Claim C9. Whenever the hull computation succeeds on the points of a cluster, every
  hull vertex lies at a distance greater than 0 from the centroid of the hull vertices.
  So no length of line 37 is 0, line 38 never divides by zero, and the buffering
  succeeds with a polygon that has no \<^verbatim>\<open>nan\<close> row; this polygon is the boundary of the
  cluster. (Over the reals a row is either a pair of finite numbers or \<^verbatim>\<open>nan\<close>.)
\<close>

theorem hull_vertices_off_centroid:
  assumes "ConvexHull cluster_points = Inr vertices"
    and "hull_points = map (\<lambda>i. cluster_points ! i) vertices"
  shows "(\<forall>v\<in>set hull_points. 0 < distance v (np_mean hull_points))
       \<and> (\<exists>buffered_points. buffer_hull hull_points = Inr buffered_points
             \<and> cluster_boundary cluster_points = Inr (Some buffered_points)
             \<and> NaN \<notin> set buffered_points)"
proof -
  let ?f = "offset_vertex (np_mean hull_points)"
  have off: "v \<noteq> np_mean hull_points" if "v \<in> set hull_points" for v
    using hull_vertex_off_centroid [OF assms that] .
  then have far: "\<forall>v\<in>set hull_points. 0 < distance v (np_mean hull_points)"
    by (simp add: distance_pos)
  obtain p ps where hp: "hull_points = p # ps"
    using hull_points_sound(4) [OF assms] by (cases hull_points) auto
  have p_in: "p \<in> set hull_points" by (simp add: hp)
  define poly where "poly = map ?f hull_points @ [?f p]"
  have "buffer_hull (p # ps) = Inr (map (offset_vertex (np_mean (p # ps))) (p # ps)
          @ [offset_vertex (np_mean (p # ps)) p])"
    by (simp only: buffer_hull_rows list.case)
  then have bh: "buffer_hull hull_points = Inr poly"
    by (simp only: poly_def hp)
  have "3 \<le> length cluster_points"
    using assms(1) by (rule hull_succeeds_length)
  then have cb: "cluster_boundary cluster_points = Inr (Some poly)"
    using assms(1) bh by (simp add: cluster_boundary_def assms(2))
  have "x \<noteq> NaN" if "x \<in> set poly" for x
  proof -
    have "x \<in> ?f ` set hull_points"
      using that p_in by (auto simp: poly_def)
    then obtain v where v: "v \<in> set hull_points" and x: "x = ?f v" by blast
    show ?thesis unfolding x using off [OF v] by (rule offset_vertex_not_NaN)
  qed
  then have "NaN \<notin> set poly" by blast
  then show ?thesis using far bh cb by blast
qed

theorem hull_vertices_off_centroid_witness:
  "ConvexHull [(0, 0), (4, 0), (0, 3)] = Inr [0, 1, 2]
   \<and> 0 < distance (4, 0) (np_mean [(0, 0), (4, 0), (0, 3)])
   \<and> (\<exists>buffered_points. cluster_boundary [(0, 0), (4, 0), (0, 3)] = Inr (Some buffered_points)
         \<and> NaN \<notin> set buffered_points)"
proof -
  have hp: "[(0, 0), (4, 0), (0, 3) :: point] = map (\<lambda>i. [(0, 0), (4, 0), (0, 3)] ! i) [0, 1, 2]"
    by simp
  note t = hull_vertices_off_centroid [OF triangle_hull hp]
  have "(4, 0) \<in> set [(0, 0), (4, 0), (0, 3) :: point]" by simp
  then have "0 < distance (4, 0) (np_mean [(0, 0), (4, 0), (0, 3)])"
    using t by blast
  then show ?thesis using t triangle_hull by blast
qed

subsection \<open>The margin\<close>

text \<open>
  Claim C3. For a cluster of at least 3 points on which the hull computation succeeds,
  the boundary polygon has one vertex per hull vertex and the first of them once more at
  the end. The vertex at position \<open>i\<close> is a point \<open>b\<close> whose distance from the centroid of
  the hull vertices is the distance of the hull vertex at position \<open>i\<close> plus exactly 0.5,
  hence strictly greater. This is over the reals; in floating point the equality holds
  up to rounding.
\<close>

theorem buffered_vertices_margin:
  assumes "3 \<le> length cluster_points"
    and "ConvexHull cluster_points = Inr vertices"
    and "hull_points = map (\<lambda>i. cluster_points ! i) vertices"
    and "i < length hull_points"
  shows "\<exists>buffered_points b.
           cluster_boundary cluster_points = Inr (Some buffered_points)
           \<and> length buffered_points = length hull_points + 1
           \<and> buffered_points ! length hull_points = buffered_points ! 0
           \<and> buffered_points ! i = Pt (fst b) (snd b)
           \<and> distance b (np_mean hull_points)
               = distance (hull_points ! i) (np_mean hull_points) + 0.5
           \<and> distance (hull_points ! i) (np_mean hull_points)
               < distance b (np_mean hull_points)"
proof -
  let ?c = "np_mean hull_points"
  obtain p ps where hp: "hull_points = p # ps"
    using assms(4) by (cases hull_points) auto
  define poly where "poly = map (offset_vertex ?c) hull_points @ [offset_vertex ?c p]"
  have bh: "buffer_hull hull_points = Inr poly"
    by (simp add: buffer_hull_rows hp poly_def)
  have cb: "cluster_boundary cluster_points = Inr (Some poly)"
    using assms(1,2) bh by (simp add: cluster_boundary_def assms(3))
  have "hull_points ! i \<in> set hull_points" using assms(4) by simp
  then have "hull_points ! i \<noteq> ?c"
    using hull_vertex_off_centroid [OF assms(2,3)] by blast
  then obtain b where b: "offset_vertex ?c (hull_points ! i) = Pt (fst b) (snd b)"
    "distance b ?c = distance (hull_points ! i) ?c + 0.5"
    using offset_vertex_far by blast
  have "poly ! i = Pt (fst b) (snd b)"
    using assms(4) b(1) by (simp add: poly_def nth_append)
  moreover have "length poly = length hull_points + 1" by (simp add: poly_def)
  moreover have "poly ! length hull_points = poly ! 0"
    by (simp add: poly_def hp nth_append)
  moreover have "distance (hull_points ! i) ?c < distance b ?c" using b(2) by simp
  ultimately show ?thesis using cb b(2) by blast
qed

theorem buffered_vertices_margin_witness:
  "3 \<le> length [(0, 0), (4, 0), (0, 3) :: point]
   \<and> ConvexHull [(0, 0), (4, 0), (0, 3)] = Inr [0, 1, 2]
   \<and> (\<exists>buffered_points b.
           cluster_boundary [(0, 0), (4, 0), (0, 3)] = Inr (Some buffered_points)
           \<and> length buffered_points = 4
           \<and> buffered_points ! 3 = buffered_points ! 0
           \<and> buffered_points ! 0 = Pt (fst b) (snd b)
           \<and> distance b (np_mean [(0, 0), (4, 0), (0, 3)])
               = distance (0, 0) (np_mean [(0, 0), (4, 0), (0, 3)]) + 0.5)"
proof -
  have "\<exists>buffered_points b.
           cluster_boundary [(0, 0), (4, 0), (0, 3)] = Inr (Some buffered_points)
           \<and> length buffered_points = length [(0, 0), (4, 0), (0, 3) :: point] + 1
           \<and> buffered_points ! length [(0, 0), (4, 0), (0, 3) :: point] = buffered_points ! 0
           \<and> buffered_points ! 0 = Pt (fst b) (snd b)
           \<and> distance b (np_mean [(0, 0), (4, 0), (0, 3)])
               = distance ([(0, 0), (4, 0), (0, 3)] ! 0) (np_mean [(0, 0), (4, 0), (0, 3)]) + 0.5
           \<and> distance ([(0, 0), (4, 0), (0, 3)] ! 0) (np_mean [(0, 0), (4, 0), (0, 3)])
               < distance b (np_mean [(0, 0), (4, 0), (0, 3)])"
    by (rule buffered_vertices_margin [OF _ triangle_hull]) simp_all
  then show ?thesis using triangle_hull by (auto simp: numeral_3_eq_3)
qed

subsection \<open>When a polygon is drawn\<close>


lemma cluster_boundary_polygon:
  assumes "3 \<le> length cluster_points" and "\<not> flat cluster_points"
  shows "\<exists>poly vertices. ConvexHull cluster_points = Inr vertices
            \<and> cluster_boundary cluster_points = Inr (Some poly)
            \<and> length poly = length vertices + 1
            \<and> 1 < length poly \<and> hd poly = last poly"
proof -
  obtain vertices where v: "ConvexHull cluster_points = Inr vertices"
    using assms by (simp add: ConvexHull_def)
  define hull_points where "hull_points = map (\<lambda>i. cluster_points ! i) vertices"
  let ?c = "np_mean hull_points"
  obtain p ps where hp: "hull_points = p # ps"
    using hull_points_sound(4) [OF v hull_points_def] by (cases hull_points) auto
  define poly where "poly = map (offset_vertex ?c) hull_points @ [offset_vertex ?c p]"
  have "buffer_hull hull_points = Inr poly"
    by (simp add: buffer_hull_rows hp poly_def)
  then have "cluster_boundary cluster_points = Inr (Some poly)"
    using assms(1) v by (simp add: cluster_boundary_def hull_points_def)
  moreover have "1 < length poly" "hd poly = last poly"
    by (simp_all add: poly_def hp)
  moreover have "length poly = length vertices + 1"
    by (simp add: poly_def hull_points_def)
  ultimately show ?thesis using v by blast
qed





subsection \<open>A cluster without a hull\<close>

lemma cluster_boundary_error:
  assumes "cluster_boundary cluster_points = Inl e"
  shows "e = QhullError ''initial simplex is flat''"
proof (cases "ConvexHull cluster_points")
  case (Inl e')
  then have "e' = QhullError ''initial simplex is flat''"
    by (auto simp: ConvexHull_def split: if_splits)
  then show ?thesis
    using assms Inl by (auto simp: cluster_boundary_def split: if_splits)
next
  case (Inr vertices)
  obtain p ps where "map (\<lambda>i. cluster_points ! i) vertices = p # ps"
    using hull_points_sound(4) [OF Inr refl]
    by (cases "map (\<lambda>i. cluster_points ! i) vertices") auto
  then have "\<exists>poly. buffer_hull (map (\<lambda>i. cluster_points ! i) vertices) = Inr poly"
    by (simp add: buffer_hull_rows)
  then show ?thesis
    using assms Inr by (auto simp: cluster_boundary_def split: if_splits)
qed

lemma cluster_boundary_flat:
  "3 \<le> length cluster_points \<Longrightarrow> flat cluster_points \<Longrightarrow>
   cluster_boundary cluster_points = Inl (QhullError ''initial simplex is flat'')"
  by (simp add: cluster_boundary_def ConvexHull_def)

lemma hull_patch_error:
  assumes "length clusters = length points_2d"
    and "hull_patch points_2d clusters c = Inl e"
  shows "e = QhullError ''initial simplex is flat''"
  using assms cluster_boundary_error
  by (auto simp: hull_patch_def cluster_points_of_def split: sum.splits option.splits)

lemma draw_hulls_raises:
  assumes "length clusters = length points_2d"
    and "c \<in> set cs"
    and "hull_patch points_2d clusters c = Inl (QhullError ''initial simplex is flat'')"
  shows "draw_hulls points_2d clusters cs = Inl (QhullError ''initial simplex is flat'')"
  using assms(2)
proof (induction cs)
  case Nil
  then show ?case by simp
next
  case (Cons c' cs)
  show ?case
  proof (cases "hull_patch points_2d clusters c'")
    case (Inl e)
    then show ?thesis using hull_patch_error [OF assms(1) Inl] by simp
  next
    case (Inr drawn)
    then have "c \<noteq> c'" using assms(3) by auto
    then have "c \<in> set cs" using Cons.prems by simp
    then show ?thesis using Cons.IH Inr by simp
  qed
qed

text \<open>
  Claim C7. When some cluster has 3 or more members that are all coincident or all on
  one line, the hull computation raises \<^verbatim>\<open>QhullError\<close>, nothing in
  \<^verbatim>\<open>plot_opinion_clusters\<close> catches it, and the call ends with that exception: the
  condition reaches the caller and no figure is returned. The run stops there; the claim
  allows, and does not require, that the other clusters are still rendered.
\<close>

theorem degenerate_cluster_raises:
  assumes "cluster_points_of points_2d clusters cluster_id = Inr cluster_points"
    and "3 \<le> length cluster_points" and "flat cluster_points"
  shows "plot_opinion_clusters points_2d clusters usernames output_path
           = Inl (QhullError ''initial simplex is flat'')"
proof -
  have len: "length clusters = length points_2d"
    and cp: "cluster_points = map fst (filter (\<lambda>pc. snd pc = cluster_id) (zip points_2d clusters))"
    using assms(1) by (auto simp: cluster_points_of_def split: if_splits)
  have "cluster_points \<noteq> []" using assms(2) by auto
  then obtain pc where "pc \<in> set (zip points_2d clusters)" "snd pc = cluster_id"
    unfolding cp by (auto simp: filter_empty_conv)
  then have "cluster_id \<in> set clusters"
    by (metis prod.collapse set_zip_rightD)
  then have mem: "cluster_id \<in> set (np_unique clusters)" by (simp add: np_unique_def)
  have "hull_patch points_2d clusters cluster_id = Inl (QhullError ''initial simplex is flat'')"
    using assms(1) cluster_boundary_flat [OF assms(2,3)] by (simp add: hull_patch_def)
  then have "draw_hulls points_2d clusters (np_unique clusters)
               = Inl (QhullError ''initial simplex is flat'')"
    using draw_hulls_raises [OF len mem] by simp
  then show ?thesis by (simp add: plot_opinion_clusters_def)
qed

lemma line_cluster:
  "cluster_points_of [(0, 0), (4, 0), (0, 3), (10, 10), (11, 11), (12, 12)] [0, 0, 0, 1, 1, 1] 1
     = Inr [(10, 10), (11, 11), (12, 12)]"
  by (simp add: cluster_points_of_def)

lemma line_flat: "flat [(10, 10), (11, 11), (12, 12)]"
  by (simp add: flat_def cross_def)

theorem degenerate_cluster_raises_witness:
  "cluster_points_of [(0, 0), (4, 0), (0, 3), (10, 10), (11, 11), (12, 12)] [0, 0, 0, 1, 1, 1] 1
     = Inr [(10, 10), (11, 11), (12, 12)]
   \<and> 3 \<le> length [(10, 10), (11, 11), (12, 12) :: point]
   \<and> flat [(10, 10), (11, 11), (12, 12)]
   \<and> plot_opinion_clusters [(0, 0), (4, 0), (0, 3), (10, 10), (11, 11), (12, 12)]
        [0, 0, 0, 1, 1, 1] [''a'', ''b'', ''c'', ''d'', ''e'', ''f''] None
       = Inl (QhullError ''initial simplex is flat'')"
  using degenerate_cluster_raises [OF line_cluster _ line_flat,
      of "[''a'', ''b'', ''c'', ''d'', ''e'', ''f'']" None]
    line_cluster line_flat
  by simp

section \<open>Properties of the hull colours\<close>

lemma second_triangle_not_flat: "\<not> flat [(10, 10), (14, 10), (10, 13)]"
  by (simp add: flat_def cross_def)

text \<open>
  Claim C2 does not hold of the code. Line 43 samples the colormap at the label's value
  divided by the number of distinct labels, where the claim has the label's rank. In a
  run on two triangles labelled 2 and 3 the samples are \<open>2/2\<close> and \<open>3/2\<close>: the figure is
  produced and both hulls have the last colour of the table, entry 255, while the
  normalized ranks \<open>0/2\<close> and \<open>1/2\<close> select entries 0 and 128. The scatter call of the
  same run gives the points of the two clusters different colours.
\<close>

theorem hull_color_collision:
  "(\<exists>fig. plot_opinion_clusters [(0, 0), (4, 0), (0, 3), (10, 10), (14, 10), (10, 13)]
            [2, 2, 2, 3, 3, 3] [''a'', ''b'', ''c'', ''d'', ''e'', ''f''] None = Inr fig
         \<and> map facecolor (patches fig) = [255, 255]
         \<and> map (\<lambda>pc. scatter_color [2, 2, 2, 3, 3, 3] (snd pc)) (scatter fig)
             = [0, 0, 0, 255, 255, 255])
   \<and> np_unique [2, 2, 2, 3, 3, 3] = [2, 3]
   \<and> hull_color [2, 2, 2, 3, 3, 3] 2 = 255
   \<and> hull_color [2, 2, 2, 3, 3, 3] 3 = 255
   \<and> rank_of [2, 2, 2, 3, 3, 3] 2 = 0
   \<and> rank_of [2, 2, 2, 3, 3, 3] 3 = 1
   \<and> viridis (real (rank_of [2, 2, 2, 3, 3, 3] 2) / 2) = 0
   \<and> viridis (real (rank_of [2, 2, 2, 3, 3, 3] 3) / 2) = 128"
proof -
  let ?pts = "[(0, 0), (4, 0), (0, 3), (10, 10), (14, 10), (10, 13)] :: point list"
  let ?cl = "[2, 2, 2, 3, 3, 3] :: int list"
  obtain poly2 where p2: "cluster_boundary [(0, 0), (4, 0), (0, 3)] = Inr (Some poly2)"
    using cluster_boundary_polygon [OF _ triangle_not_flat] by auto
  obtain poly3 where p3: "cluster_boundary [(10, 10), (14, 10), (10, 13)] = Inr (Some poly3)"
    using cluster_boundary_polygon [OF _ second_triangle_not_flat] by auto
  have c2: "hull_color ?cl 2 = 255" and c3: "hull_color ?cl 3 = 255"
    by (simp_all add: hull_color_def np_unique_def viridis_def)
  have h2: "hull_patch ?pts ?cl 2 = Inr (Some \<lparr>polygon = poly2, facecolor = 255\<rparr>)"
    using p2 c2 by (simp add: hull_patch_def cluster_points_of_def)
  have h3: "hull_patch ?pts ?cl 3 = Inr (Some \<lparr>polygon = poly3, facecolor = 255\<rparr>)"
    using p3 c3 by (simp add: hull_patch_def cluster_points_of_def)
  have u: "np_unique ?cl = [2, 3]" by (simp add: np_unique_def)
  have d: "draw_hulls ?pts ?cl (np_unique ?cl)
      = Inr [\<lparr>polygon = poly2, facecolor = 255\<rparr>, \<lparr>polygon = poly3, facecolor = 255\<rparr>]"
    by (simp only: u draw_hulls.simps h2 h3 sum.case option.case)
  have "plot_opinion_clusters ?pts ?cl [''a'', ''b'', ''c'', ''d'', ''e'', ''f''] None
      = Inr \<lparr>patches = [\<lparr>polygon = poly2, facecolor = 255\<rparr>,
                        \<lparr>polygon = poly3, facecolor = 255\<rparr>],
             scatter = zip ?pts ?cl,
             annotations = zip [''a'', ''b'', ''c'', ''d'', ''e'', ''f''] ?pts,
             xlim = (- 14 / 5, 84 / 5), ylim = (- 13 / 5, 78 / 5), saved_to = None\<rparr>"
    unfolding plot_opinion_clusters_def d by (simp add: view_limits_def)
  then have run: "\<exists>fig. plot_opinion_clusters ?pts ?cl [''a'', ''b'', ''c'', ''d'', ''e'', ''f''] None
            = Inr fig
         \<and> map facecolor (patches fig) = [255, 255]
         \<and> map (\<lambda>pc. scatter_color ?cl (snd pc)) (scatter fig) = [0, 0, 0, 255, 255, 255]"
    by (simp add: scatter_color_def viridis_def)
  have "rank_of ?cl 2 = 0" "rank_of ?cl 3 = 1"
    "viridis (real (rank_of ?cl 2) / 2) = 0" "viridis (real (rank_of ?cl 3) / 2) = 128"
    by (simp_all add: rank_of_def u viridis_def)
  then show ?thesis using run u c2 c3 by blast
qed

end
